theory Spec2Isabelle
  imports Complex_Main
begin

section \<open>The document tree as the helpers of \<^verbatim>\<open>src/lib/utils/DOM/index.js\<close> see it\<close>

text \<open>
  A node is the \<^verbatim>\<open>document\<close> object itself, an element, or a parentless container such
  as a document fragment or a shadow root. The JavaScript value \<^verbatim>\<open>null\<close> (and
  \<^verbatim>\<open>undefined\<close>) in the place of a node is \<open>None\<close>.
\<close>

datatype node = Document | Element nat | Fragment nat

text \<open>
  What a call can raise: the three errors of the platform the helpers can meet, the
  \<^verbatim>\<open>RangeError\<close> of an exhausted call stack, and \<open>Thrown\<close>, whatever a callback of the
  application throws.
\<close>

datatype error = TypeError | SyntaxError | InvalidCharacterError | RangeError | Thrown

text \<open>
  A snapshot of the host page: each field is one of the native queries the helpers make.
  \<open>scrollHeight\<close> and \<open>clientHeight\<close> are \<open>None\<close> where the property is
  \<^verbatim>\<open>undefined\<close> (nodes that are not elements). \<open>scrollTop\<close> is never read by the
  helpers; it is part of the snapshot because the specification speaks about it.
\<close>

record dom =
  parentNode :: "node \<Rightarrow> node option"
  body :: "node option"
  documentElement :: "node option"
  contains :: "node \<Rightarrow> node option \<Rightarrow> bool"
  scrollHeight :: "node \<Rightarrow> int option"
  clientHeight :: "node \<Rightarrow> int option"
  overflowY :: "node \<Rightarrow> string"
  rectTop :: "node \<Rightarrow> real"
  scrollTop :: "node \<Rightarrow> real"
  innerHeight :: real
  classList :: "node \<Rightarrow> string list"

text \<open>JavaScript's greater-than: a comparison with \<^verbatim>\<open>undefined\<close> is false.\<close>

fun js_gt :: "int option \<Rightarrow> int option \<Rightarrow> bool" where
  "js_gt (Some a) (Some b) = (b < a)"
| "js_gt _ _ = False"

subsection \<open>\<^verbatim>\<open>findScrollableParent\<close> (lines 165-176)\<close>

text \<open>
  The recursion follows \<open>parentNode\<close>, so it is defined in the option monad: the outer
  \<open>None\<close> is a walk that never ends, the inner option is the returned reference, which
  is \<^verbatim>\<open>null\<close> when the document has no root element. The first test of line 166 compares
  the \<^verbatim>\<open>document\<close> object with its root element. \<^verbatim>\<open>getComputedStyle\<close> is reached only
  for a node with heights, the body or the root element; these are elements, for which it
  does not throw.
\<close>

partial_function (option) findScrollableParent :: "dom \<Rightarrow> node option \<Rightarrow> node option option" where
  "findScrollableParent d element =
     (case element of
        None \<Rightarrow> Some (documentElement d)
      | Some e \<Rightarrow>
          if Some Document = documentElement d then Some (documentElement d)
          else if js_gt (scrollHeight d e) (clientHeight d e) \<or>
                  Some e = body d \<or>
                  Some e = documentElement d
          then (if overflowY d e = ''auto'' \<or> overflowY d e = ''scroll''
                then Some (Some e)
                else findScrollableParent d (parentNode d e))
          else findScrollableParent d (parentNode d e))"

subsection \<open>\<^verbatim>\<open>scrollByElementTo\<close> (lines 155-163)\<close>

text \<open>
  \<^verbatim>\<open>scrollToTop\<close> is imported from \<^verbatim>\<open>./scroll\<close>, so the call that is made is
  the result: \<open>ScrollToTop parent newScrollTop duration\<close>. \<open>Returned\<close> is the early
  \<^verbatim>\<open>return\<close> of line 158. Reading \<^verbatim>\<open>getBoundingClientRect\<close> of \<^verbatim>\<open>null\<close> raises a
  \<^verbatim>\<open>TypeError\<close>. The parameter \<^verbatim>\<open>top\<close> is written \<open>top'\<close>; \<open>dur = None\<close> is a call
  without the third argument, which takes the default 200.
\<close>

datatype outcome = Returned | ScrollToTop node real real

definition scrollByElementTo ::
  "dom \<Rightarrow> node option \<Rightarrow> real \<Rightarrow> real option \<Rightarrow> (error + outcome) option" where
  "scrollByElementTo d element top' dur =
     (let duration = (case dur of None \<Rightarrow> 200 | Some t \<Rightarrow> t) in
      case findScrollableParent d element of
        None \<Rightarrow> None
      | Some parent \<Rightarrow>
          Some (case parent of
                  None \<Rightarrow> Inr Returned
                | Some p \<Rightarrow>
                    if parent = element then Inr Returned
                    else (case element of
                            None \<Rightarrow> Inl TypeError
                          | Some e \<Rightarrow>
                              let elementTop = rectTop d e;
                                  parentTop = rectTop d p;
                                  newScrollTop = elementTop - parentTop + top'
                              in Inr (ScrollToTop p newScrollTop duration))))"

subsection \<open>Notions used to state properties of the walk\<close>

text \<open>
  The test of lines 168-173 under which the walk returns the node it is visiting: the
  outer condition on the heights, the body and the root element, and inside it the
  condition on the computed \<^verbatim>\<open>overflowY\<close>.
\<close>

definition returns_here :: "dom \<Rightarrow> node \<Rightarrow> bool" where
  "returns_here d e =
     ((js_gt (scrollHeight d e) (clientHeight d e) \<or> Some e = body d \<or>
       Some e = documentElement d) \<and>
      (overflowY d e = ''auto'' \<or> overflowY d e = ''scroll''))"

text \<open>
  The qualification test as section 4.3 of the specification words it: the content height
  exceeds the visible height AND (body OR root element OR overflow \<^verbatim>\<open>auto\<close>/\<^verbatim>\<open>scroll\<close>).
\<close>

definition spec_qualifies :: "dom \<Rightarrow> node \<Rightarrow> bool" where
  "spec_qualifies d e =
     (js_gt (scrollHeight d e) (clientHeight d e) \<and>
      (Some e = body d \<or> Some e = documentElement d \<or>
       overflowY d e = ''auto'' \<or> overflowY d e = ''scroll''))"

text \<open>
  \<open>ancestors_are d e ps\<close>: \<open>ps\<close> lists the proper ancestors of \<open>e\<close>, nearest first, and
  the last of them (or \<open>e\<close> itself) has no parent. A node of a finite tree has such a list.
\<close>

fun ancestors_are :: "dom \<Rightarrow> node \<Rightarrow> node list \<Rightarrow> bool" where
  "ancestors_are d e [] = (parentNode d e = None)"
| "ancestors_are d e (p # ps) = (parentNode d e = Some p \<and> ancestors_are d p ps)"

text \<open>
  What every browser guarantees about the \<^verbatim>\<open>document\<close> object: it has no parent and no
  \<^verbatim>\<open>scrollHeight\<close>, it is neither the body nor the root element, and it is the parent of
  the root element.
\<close>

definition document_node_ok :: "dom \<Rightarrow> bool" where
  "document_node_ok d =
     (parentNode d Document = None \<and> scrollHeight d Document = None \<and>
      body d \<noteq> Some Document \<and> documentElement d \<noteq> Some Document \<and>
      (case documentElement d of None \<Rightarrow> True | Some r \<Rightarrow> parentNode d r = Some Document))"

text \<open>
  The target scroll position in the words of section 4.4 of the specification: the node's
  viewport-relative top, minus the ancestor's, plus the ancestor's current scroll offset,
  minus the desired offset.
\<close>

definition spec_newScrollTop :: "dom \<Rightarrow> node \<Rightarrow> node \<Rightarrow> real \<Rightarrow> real" where
  "spec_newScrollTop d e p desiredTopOffset =
     rectTop d e - rectTop d p + scrollTop d p - desiredTopOffset"

text \<open>
  Modelled from the spec: \<^verbatim>\<open>scrollToTop\<close> of \<^verbatim>\<open>./scroll\<close> is not among the sources. By
  section 4.4 the animation ends with the ancestor's scroll offset at exactly the target.
  Moving the offset of \<open>p\<close> from \<open>scrollTop d p\<close> to \<open>target\<close> moves its content, and
  the node \<open>e\<close> in it, up by the difference; the value is the distance of the node's top
  below the ancestor's top afterwards.
\<close>

definition top_below_ancestor_after :: "dom \<Rightarrow> node \<Rightarrow> node \<Rightarrow> real \<Rightarrow> real" where
  "top_below_ancestor_after d e p target =
     (rectTop d e - (target - scrollTop d p)) - rectTop d p"

section \<open>Class utilities\<close>

subsection \<open>Arguments and the \<^verbatim>\<open>classnames\<close> package\<close>

text \<open>
  The values the class helpers are documented to take (\<^verbatim>\<open>String|Object\<close>, and the boolean
  flag of \<^verbatim>\<open>toggleClass\<close>): \<open>Undefined\<close> stands for \<^verbatim>\<open>undefined\<close> and \<^verbatim>\<open>null\<close>, an object
  is the list of its own enumerable entries in iteration order.
\<close>

datatype jsval =
  Undefined | Bool bool | Str string | Arr "jsval list" | Obj "(string \<times> jsval) list"

fun truthy :: "jsval \<Rightarrow> bool" where
  "truthy Undefined = False"
| "truthy (Bool b) = b"
| "truthy (Str s) = (s \<noteq> [])"
| "truthy (Arr xs) = True"
| "truthy (Obj kvs) = True"

text \<open>\<^verbatim>\<open>Array.prototype.join(' ')\<close>.\<close>

fun join_space :: "string list \<Rightarrow> string" where
  "join_space [] = []"
| "join_space [x] = x"
| "join_space (x # y # ys) = x @ '' '' @ join_space (y # ys)"

text \<open>
  \<^verbatim>\<open>classnames(...args)\<close> of the package of that name: \<open>pushed a\<close> is what one argument
  adds to the list \<^verbatim>\<open>classes\<close> (a falsy argument nothing, a string itself, a non-empty
  array its own composition when that is non-empty, an object its keys with truthy
  values); the list is joined with single spaces.
\<close>

fun pushed :: "jsval \<Rightarrow> string list" where
  "pushed (Str s) = (if s = [] then [] else [s])"
| "pushed (Arr xs) =
     (if xs = [] then []
      else let inner = join_space (concat (map pushed xs))
           in if inner = [] then [] else [inner])"
| "pushed (Obj kvs) = map fst (filter (\<lambda>kv. truthy (snd kv)) kvs)"
| "pushed Undefined = []"
| "pushed (Bool b) = []"

definition classnames :: "jsval list \<Rightarrow> string" where
  "classnames args = join_space (concat (map pushed args))"

subsection \<open>\<^verbatim>\<open>trim()\<close> and \<^verbatim>\<open>split(/\s+/)\<close>\<close>

text \<open>
  A character is a code unit below 256. The white space of \<^verbatim>\<open>\s\<close> and of \<^verbatim>\<open>trim\<close> in
  that range: space, tab, line feed, vertical tab, form feed, carriage return and the
  no-break space U+00A0. The white space of the class attribute (DOM "ASCII whitespace")
  is space, tab, line feed, form feed and carriage return.
\<close>

definition is_space :: "char \<Rightarrow> bool" where
  "is_space c =
     (c \<in> set [CHR '' '', CHR 0x09, CHR 0x0A, CHR 0x0B, CHR 0x0C, CHR 0x0D, CHR 0xA0])"

definition is_ascii_whitespace :: "char \<Rightarrow> bool" where
  "is_ascii_whitespace c = (c \<in> set [CHR '' '', CHR 0x09, CHR 0x0A, CHR 0x0C, CHR 0x0D])"

definition trim :: "string \<Rightarrow> string" where
  "trim s = rev (dropWhile is_space (rev (dropWhile is_space s)))"

text \<open>
  Splitting at every maximal run of separators, as \<^verbatim>\<open>String.prototype.split\<close> does with
  \<^verbatim>\<open>/\s+/\<close>: the empty string gives one empty piece, a leading or trailing run gives an
  empty first or last piece.
\<close>

function split_on :: "(char \<Rightarrow> bool) \<Rightarrow> string \<Rightarrow> string list" where
  "split_on sep s =
     (let tok = takeWhile (\<lambda>c. \<not> sep c) s;
          rest = dropWhile (\<lambda>c. \<not> sep c) s
      in if rest = [] then [tok] else tok # split_on sep (dropWhile sep rest))"
  by pat_completeness auto
termination
proof (relation "measure (\<lambda>(sep, s). length s)")
  show "wf (measure (\<lambda>(sep, s). length s))" by simp
next
  fix sep :: "char \<Rightarrow> bool" and s tok rest
  assume r: "rest = dropWhile (\<lambda>c. \<not> sep c) s" and ne: "rest \<noteq> []"
  from ne obtain c cs where rc: "rest = c # cs" by (cases rest) simp_all
  from r ne have "\<not> \<not> sep (hd rest)"
    using hd_dropWhile [of "\<lambda>c. \<not> sep c" s] by blast
  with rc have "dropWhile sep rest = dropWhile sep cs" by simp
  then have "length (dropWhile sep rest) \<le> length cs"
    by (simp add: length_dropWhile_le)
  moreover have "length rest \<le> length s" using r by (simp add: length_dropWhile_le)
  ultimately show "((sep, dropWhile sep rest), (sep, s)) \<in> measure (\<lambda>(sep, s). length s)"
    using rc by simp
qed

declare split_on.simps [simp del]

subsection \<open>The class list of an element (\<^verbatim>\<open>DOMTokenList\<close>)\<close>

text \<open>
  Sequencing of two statements when the first may throw.
\<close>

definition and_then :: "error + 'a \<Rightarrow> ('a \<Rightarrow> error + 'b) \<Rightarrow> error + 'b" where
  "and_then r f = (case r of Inl err \<Rightarrow> Inl err | Inr x \<Rightarrow> f x)"

text \<open>
  \<^verbatim>\<open>classList.add\<close> and \<^verbatim>\<open>classList.remove\<close> first check every token, in order: the
  empty token is a \<^verbatim>\<open>SyntaxError\<close>, a token with white space an
  \<^verbatim>\<open>InvalidCharacterError\<close>. Then \<^verbatim>\<open>add\<close> appends each token that is not yet in the
  list and \<^verbatim>\<open>remove\<close> deletes each token.
\<close>

fun validate_tokens :: "string list \<Rightarrow> error option" where
  "validate_tokens [] = None"
| "validate_tokens (t # ts) =
     (if t = [] then Some SyntaxError
      else if \<exists>c\<in>set t. is_ascii_whitespace c then Some InvalidCharacterError
      else validate_tokens ts)"

fun append_tokens :: "string list \<Rightarrow> string list \<Rightarrow> string list" where
  "append_tokens cs [] = cs"
| "append_tokens cs (t # ts) = append_tokens (if t \<in> set cs then cs else cs @ [t]) ts"

fun remove_tokens :: "string list \<Rightarrow> string list \<Rightarrow> string list" where
  "remove_tokens cs [] = cs"
| "remove_tokens cs (t # ts) = remove_tokens (removeAll t cs) ts"

definition classList_add :: "node \<Rightarrow> string list \<Rightarrow> dom \<Rightarrow> error + dom" where
  "classList_add e tokens d =
     (case validate_tokens tokens of
        Some err \<Rightarrow> Inl err
      | None \<Rightarrow> Inr (d\<lparr>classList := (classList d)(e := append_tokens (classList d e) tokens)\<rparr>))"

definition classList_remove :: "node \<Rightarrow> string list \<Rightarrow> dom \<Rightarrow> error + dom" where
  "classList_remove e tokens d =
     (case validate_tokens tokens of
        Some err \<Rightarrow> Inl err
      | None \<Rightarrow> Inr (d\<lparr>classList := (classList d)(e := remove_tokens (classList d e) tokens)\<rparr>))"

text \<open>Assigning \<^verbatim>\<open>className\<close>: the class list becomes the distinct tokens of the string.\<close>

definition parse_class :: "string \<Rightarrow> string list" where
  "parse_class s = append_tokens [] (filter (\<lambda>t. t \<noteq> []) (split_on is_ascii_whitespace s))"

subsection \<open>\<^verbatim>\<open>setClass\<close>, \<^verbatim>\<open>addClass\<close>, \<^verbatim>\<open>removeClass\<close> (lines 85-108)\<close>

definition setClass :: "node option \<Rightarrow> jsval list \<Rightarrow> dom \<Rightarrow> error + dom" where
  "setClass element classNames d =
     (case element of
        None \<Rightarrow> Inr d
      | Some e \<Rightarrow> Inr (d\<lparr>classList := (classList d)(e := parse_class (classnames classNames))\<rparr>))"

definition addClass :: "node option \<Rightarrow> jsval list \<Rightarrow> dom \<Rightarrow> error + dom" where
  "addClass element classNames d =
     (case element of
        None \<Rightarrow> Inr d
      | Some e \<Rightarrow> classList_add e (split_on is_space (trim (classnames classNames))) d)"

definition removeClass :: "node option \<Rightarrow> jsval list \<Rightarrow> dom \<Rightarrow> error + dom" where
  "removeClass element classNames d =
     (case element of
        None \<Rightarrow> Inr d
      | Some e \<Rightarrow> classList_remove e (split_on is_space (trim (classnames classNames))) d)"

subsection \<open>\<^verbatim>\<open>toggleClass\<close> (lines 121-135)\<close>

text \<open>
  \<^verbatim>\<open>forOwn\<close> of lodash visits the own enumerable string-keyed properties: the entries of
  an object, the indices of an array or of a string (as decimal strings), nothing for
  \<^verbatim>\<open>undefined\<close>, \<^verbatim>\<open>null\<close> or a boolean.
\<close>

function show_nat :: "nat \<Rightarrow> string" where
  "show_nat n =
     (if n < 10 then [''0123456789'' ! n]
      else show_nat (n div 10) @ [''0123456789'' ! (n mod 10)])"
  by pat_completeness auto
termination
  by (relation "measure (\<lambda>n. n)") auto

declare show_nat.simps [simp del]

fun own_entries :: "jsval \<Rightarrow> (string \<times> jsval) list" where
  "own_entries (Obj kvs) = kvs"
| "own_entries (Arr xs) = zip (map show_nat [0..<length xs]) xs"
| "own_entries (Str s) = zip (map show_nat [0..<length s]) (map (\<lambda>c. Str [c]) s)"
| "own_entries Undefined = []"
| "own_entries (Bool b) = []"

text \<open>The loop of lines 124-129: the callback adds or removes the key, and a throw ends it.\<close>

fun forOwn_toggle :: "node option \<Rightarrow> (string \<times> jsval) list \<Rightarrow> dom \<Rightarrow> error + dom" where
  "forOwn_toggle element [] d = Inr d"
| "forOwn_toggle element ((k, v) # kvs) d =
     and_then (if truthy v then addClass element [Str k] d else removeClass element [Str k] d)
       (forOwn_toggle element kvs)"

text \<open>
  \<^verbatim>\<open>args.reverse()\<close> reverses the array in place, so \<^verbatim>\<open>args[0]\<close> of line 124 is \<^verbatim>\<open>add\<close>,
  the last argument of the call (\<^verbatim>\<open>undefined\<close> when there is none).
\<close>

definition toggleClass :: "node option \<Rightarrow> jsval list \<Rightarrow> dom \<Rightarrow> error + dom" where
  "toggleClass element args d =
     (let reversed = rev args;
          add = (case reversed of [] \<Rightarrow> Undefined | a # _ \<Rightarrow> a);
          classNames = tl reversed
      in case add of
           Bool b \<Rightarrow> if b then addClass element classNames d
                     else removeClass element classNames d
         | _ \<Rightarrow> forOwn_toggle element (own_entries add) d)"

text \<open>The class list of one element after an operation, or the error the operation raised.\<close>

definition classes_after :: "error + dom \<Rightarrow> node \<Rightarrow> error + string list" where
  "classes_after r e = (case r of Inl err \<Rightarrow> Inl err | Inr d \<Rightarrow> Inr (classList d e))"

section \<open>\<^verbatim>\<open>removeFromDOM\<close>, \<^verbatim>\<open>isElementInDOM\<close>, \<^verbatim>\<open>inViewport\<close> (lines 61-78)\<close>

text \<open>
  \<^verbatim>\<open>parent.removeChild(e)\<close> detaches \<open>e\<close> with its subtree: \<open>e\<close> has no parent afterwards,
  a node of that subtree is contained only in nodes of that subtree, and the document has
  no body or no root element any more when that was in the subtree.
\<close>

definition removeChild :: "node \<Rightarrow> node \<Rightarrow> dom \<Rightarrow> dom" where
  "removeChild p e d =
     d\<lparr>parentNode := (parentNode d)(e := None),
       body := (case body d of
                  None \<Rightarrow> None
                | Some b \<Rightarrow> if contains d e (Some b) then None else Some b),
       documentElement := (case documentElement d of
                             None \<Rightarrow> None
                           | Some r \<Rightarrow> if contains d e (Some r) then None else Some r),
       contains := (\<lambda>b x. if contains d e x then contains d e (Some b) \<and> contains d b x
                           else contains d b x)\<rparr>"

text \<open>Reading a property of \<^verbatim>\<open>null\<close> raises a \<^verbatim>\<open>TypeError\<close>.\<close>

definition removeFromDOM :: "node option \<Rightarrow> dom \<Rightarrow> error + dom" where
  "removeFromDOM element d =
     (case element of
        None \<Rightarrow> Inl TypeError
      | Some e \<Rightarrow>
          (case parentNode d e of
             None \<Rightarrow> Inr d
           | Some p \<Rightarrow> Inr (removeChild p e d)))"

definition isElementInDOM :: "dom \<Rightarrow> node option \<Rightarrow> error + bool" where
  "isElementInDOM d element =
     (case body d of
        None \<Rightarrow> Inl TypeError
      | Some b \<Rightarrow> Inr (contains d b element))"

definition inViewport :: "dom \<Rightarrow> node option \<Rightarrow> real \<Rightarrow> error + bool" where
  "inViewport d element offset =
     (case element of
        None \<Rightarrow> Inl TypeError
      | Some e \<Rightarrow> Inr (rectTop d e - offset < innerHeight d))"

section \<open>The removal watcher (lines 27-55)\<close>

text \<open>
  \<^verbatim>\<open>mutationEvents\<close> is an exported \<^verbatim>\<open>EventEmitter\<close> of the package \<^verbatim>\<open>events\<close>. Each call
  of \<^verbatim>\<open>onRemoveFromDOM\<close> has its own closure \<^verbatim>\<open>onMutation\<close>; \<open>lid\<close> is the identity of
  that closure, which is what \<^verbatim>\<open>removeListener\<close> compares.

  A callback is code of the application, run inside \<^verbatim>\<open>emit\<close>. It is identified by a
  number, and \<open>code\<close> says what it does when it is called: it returns without touching
  the emitter or the document (\<open>Inert\<close>), it emits a mutation event on the exported
  emitter (\<open>Emits\<close>), or it throws (\<open>Throws\<close>). Every call is recorded in \<open>calls\<close>, together with whether
  the listener was still subscribed at that moment.
\<close>

datatype behaviour = Inert | Emits | Throws

datatype listener = Listener (lid: nat) (element: "node option") (callback: nat)

record world =
  document :: dom
  code :: "nat \<Rightarrow> behaviour"
  listeners :: "listener list"
  nextId :: nat
  calls :: "(listener \<times> bool) list"

text \<open>\<^verbatim>\<open>on\<close> appends; \<^verbatim>\<open>removeListener\<close> removes the most recently added occurrence.\<close>

definition on :: "listener \<Rightarrow> world \<Rightarrow> world" where
  "on l w = w\<lparr>listeners := listeners w @ [l]\<rparr>"

definition removeListener :: "listener \<Rightarrow> world \<Rightarrow> world" where
  "removeListener l w = w\<lparr>listeners := rev (remove1 l (rev (listeners w)))\<rparr>"

definition called :: "listener \<Rightarrow> world \<Rightarrow> world" where
  "called l w = w\<lparr>calls := calls w @ [(l, l \<in> set (listeners w))]\<rparr>"

text \<open>
  \<^verbatim>\<open>emit\<close> calls the listeners of a copy of the list taken when it starts, in order
  (\<open>callListeners\<close>), and a throwing listener ends it. \<open>onMutation\<close> is the closure of
  lines 49-54 and \<open>invoke\<close> its call \<^verbatim>\<open>callback()\<close>: a callback that emits starts a
  nested \<^verbatim>\<open>emit\<close> on the listeners subscribed at that moment. \<open>depth\<close> is the number of
  nested \<^verbatim>\<open>emit\<close>s the call stack still has room for; beyond it the engine raises a
  \<^verbatim>\<open>RangeError\<close>.
\<close>

fun callListeners :: "nat \<Rightarrow> listener list \<Rightarrow> world \<Rightarrow> error option \<times> world"
  and onMutation :: "nat \<Rightarrow> listener \<Rightarrow> world \<Rightarrow> error option \<times> world"
  and invoke :: "nat \<Rightarrow> listener \<Rightarrow> world \<Rightarrow> error option \<times> world" where
  "callListeners depth [] w = (None, w)"
| "callListeners depth (l # ls) w =
     (case onMutation depth l w of
        (Some err, w') \<Rightarrow> (Some err, w')
      | (None, w') \<Rightarrow> callListeners depth ls w')"
| "onMutation depth l w =
     (case isElementInDOM (document w) (element l) of
        Inl err \<Rightarrow> (Some err, w)
      | Inr present \<Rightarrow>
          if \<not> present then invoke depth l (removeListener l w)
          else (None, w))"
| "invoke depth l w =
     (case code w (callback l) of
        Inert \<Rightarrow> (None, called l w)
      | Throws \<Rightarrow> (Some Thrown, called l w)
      | Emits \<Rightarrow>
          (case depth of
             0 \<Rightarrow> (Some RangeError, called l w)
           | Suc deeper \<Rightarrow> callListeners deeper (listeners (called l w)) (called l w)))"

declare onMutation.simps [simp del] invoke.simps [simp del]

definition emit :: "nat \<Rightarrow> world \<Rightarrow> error option \<times> world" where
  "emit depth w = callListeners depth (listeners w) w"

definition onRemoveFromDOM :: "node option \<Rightarrow> nat \<Rightarrow> world \<Rightarrow> error option \<times> world" where
  "onRemoveFromDOM el cb w =
     (case isElementInDOM (document w) el of
        Inl err \<Rightarrow> (Some err, w)
      | Inr present \<Rightarrow>
          if present
          then (None, on (Listener (nextId w) el cb) (w\<lparr>nextId := Suc (nextId w)\<rparr>))
          else (None, w))"

text \<open>
  What can happen on a page: the document changes, the observer emits a mutation event,
  the application calls \<^verbatim>\<open>onRemoveFromDOM\<close>. An error thrown by a step does not undo what
  the step did before it.
\<close>

datatype action = SetDocument dom | EmitMutation | OnRemoveFromDOM "node option" nat

fun step :: "nat \<Rightarrow> action \<Rightarrow> world \<Rightarrow> world" where
  "step depth (SetDocument d) w = w\<lparr>document := d\<rparr>"
| "step depth EmitMutation w = snd (emit depth w)"
| "step depth (OnRemoveFromDOM el cb) w = snd (onRemoveFromDOM el cb w)"

fun run :: "nat \<Rightarrow> action list \<Rightarrow> world \<Rightarrow> world" where
  "run depth [] w = w"
| "run depth (a # as) w = run depth as (step depth a w)"

definition init :: "dom \<Rightarrow> (nat \<Rightarrow> behaviour) \<Rightarrow> world" where
  "init d beh = \<lparr>document = d, code = beh, listeners = [], nextId = 0, calls = []\<rparr>"

fun registers :: "nat \<Rightarrow> action \<Rightarrow> bool" where
  "registers cb (OnRemoveFromDOM el c) = (c = cb)"
| "registers cb _ = False"


definition calls_of :: "nat \<Rightarrow> world \<Rightarrow> (listener \<times> bool) list" where
  "calls_of cb w = filter (\<lambda>c. callback (fst c) = cb) (calls w)"



definition later :: "world \<Rightarrow> world \<Rightarrow> bool" where
  "later w w' =
     (document w' = document w \<and> code w' = code w \<and> nextId w' = nextId w \<and>
      set (listeners w') \<subseteq> set (listeners w) \<and> set (calls w) \<subseteq> set (calls w'))"

section \<open>Example pages\<close>

text \<open>
  A page with the chain document, \<^verbatim>\<open>html\<close> (element 0), \<^verbatim>\<open>body\<close> (element 1), a container
  with \<^verbatim>\<open>overflow-y: auto\<close> (element 2) scrolled by 50 pixels, and a target (element 3).
  Elements above 3 are not in the tree.
\<close>

definition ex_page :: dom where
  "ex_page =
     \<lparr> parentNode = (\<lambda>n. case n of
                            Element k \<Rightarrow> if k = 0 then Some Document
                                         else if k \<le> 3 then Some (Element (k - 1))
                                         else None
                          | _ \<Rightarrow> None),
       body = Some (Element 1),
       documentElement = Some (Element 0),
       contains = (\<lambda>b x. case x of
                            Some (Element k) \<Rightarrow>
                              (case b of Element j \<Rightarrow> j \<le> k \<and> k \<le> 3
                                       | Document \<Rightarrow> k \<le> 3
                                       | Fragment i \<Rightarrow> False)
                          | Some Document \<Rightarrow> b = Document
                          | _ \<Rightarrow> False),
       scrollHeight = (\<lambda>n. case n of
                              Element k \<Rightarrow> Some (if k = 3 then 50 else if k = 2 then 500 else 2000)
                            | _ \<Rightarrow> None),
       clientHeight = (\<lambda>n. case n of
                              Element k \<Rightarrow> Some (if k = 3 then 50 else if k = 2 then 300 else 800)
                            | _ \<Rightarrow> None),
       overflowY = (\<lambda>n. if n = Element 2 then ''auto'' else ''visible''),
       rectTop = (\<lambda>n. if n = Element 3 then 120 else if n = Element 2 then 20 else 0),
       scrollTop = (\<lambda>n. if n = Element 2 then 50 else 0),
       innerHeight = 800,
       classList = (\<lambda>n. []) \<rparr>"

text \<open>The same page with the container at scroll offset 0.\<close>

definition ex_unscrolled_page :: dom where
  "ex_unscrolled_page = ex_page\<lparr> scrollTop := (\<lambda>n. 0) \<rparr>"

text \<open>
  The same tree when all content fits (every element is as high as its content) and the
  body has \<^verbatim>\<open>overflow-y: scroll\<close>.
\<close>

definition ex_fit_page :: dom where
  "ex_fit_page =
     ex_page\<lparr> scrollHeight := (\<lambda>n. case n of Element k \<Rightarrow> Some 800 | _ \<Rightarrow> None),
              clientHeight := (\<lambda>n. case n of Element k \<Rightarrow> Some 800 | _ \<Rightarrow> None),
              overflowY := (\<lambda>n. if n = Element 1 then ''scroll'' else ''visible'') \<rparr>"

text \<open>
  \<open>ex_page\<close> after the target was removed from its container, and after the container
  was removed from the body as well.
\<close>

definition ex_detached :: dom where
  "ex_detached = removeChild (Element 2) (Element 3) ex_page"


text \<open>
  A watcher with callback 7 was registered for the target, a mutation event passed while
  the target was attached, and then the target was removed. All callbacks are inert.
\<close>

definition ex_watch :: world where
  "ex_watch =
     run 3 [OnRemoveFromDOM (Some (Element 3)) 7, EmitMutation, SetDocument ex_detached]
       (init ex_page (\<lambda>c. Inert))"



section \<open>Scrollable-ancestor resolution\<close>

lemma findScrollableParent_null: "findScrollableParent d None = Some (documentElement d)"
  by (subst findScrollableParent.simps) simp

lemma findScrollableParent_node:
  "findScrollableParent d (Some e) =
     (if Some Document = documentElement d then Some (documentElement d)
      else if returns_here d e then Some (Some e)
      else findScrollableParent d (parentNode d e))"
  by (subst findScrollableParent.simps) (simp add: returns_here_def)

lemma no_scrollable_gives_root:
  "ancestors_are d e ps \<Longrightarrow> \<forall>n\<in>set (e # ps). \<not> returns_here d n \<Longrightarrow>
   findScrollableParent d (Some e) = Some (documentElement d)"
proof (induction ps arbitrary: e)
  case Nil
  then show ?case by (simp add: findScrollableParent_node findScrollableParent_null)
next
  case (Cons p ps)
  from Cons.prems have "findScrollableParent d (Some p) = Some (documentElement d)"
    by (intro Cons.IH) simp_all
  with Cons.prems show ?case by (subst findScrollableParent_node) simp
qed

lemma root_gives_root:
  assumes "document_node_ok d"
  shows "findScrollableParent d (documentElement d) = Some (documentElement d)"
proof (cases "documentElement d")
  case None
  then show ?thesis by (simp add: findScrollableParent_null)
next
  case (Some r)
  with assms have p: "parentNode d r = Some Document" "parentNode d Document = None"
    "\<not> returns_here d Document" "Some Document \<noteq> documentElement d"
    by (auto simp: document_node_ok_def returns_here_def)
  have "findScrollableParent d (Some Document) = Some (documentElement d)"
    using p by (simp add: findScrollableParent_node findScrollableParent_null)
  then have "findScrollableParent d (Some r) = Some (Some r)"
    using p Some by (simp add: findScrollableParent_node)
  with Some show ?thesis by simp
qed

lemma walk_ends:
  "ancestors_are d e ps \<Longrightarrow> documentElement d \<noteq> None \<Longrightarrow>
   \<exists>p. findScrollableParent d (Some e) = Some (Some p)"
proof (induction ps arbitrary: e)
  case Nil
  then show ?case by (auto simp: findScrollableParent_node findScrollableParent_null)
next
  case (Cons q ps)
  then obtain p where "findScrollableParent d (Some q) = Some (Some p)" by fastforce
  with Cons.prems show ?case by (subst findScrollableParent_node) auto
qed

lemma result_is_root_or_scrollable:
  assumes "findScrollableParent d x = Some r"
  shows "r = documentElement d \<or> (\<exists>e. r = Some e \<and> returns_here d e)"
proof (rule findScrollableParent.raw_induct
    [where P = "\<lambda>d x r. r = documentElement d \<or> (\<exists>e. r = Some e \<and> returns_here d e)",
     OF _ assms])
  fix f d element r
  assume IH: "\<And>d x y. f d x = Some y \<Longrightarrow>
                 y = documentElement d \<or> (\<exists>e. y = Some e \<and> returns_here d e)"
    and eq: "(case element of None \<Rightarrow> Some (documentElement d)
      | Some e \<Rightarrow>
          if Some Document = documentElement d then Some (documentElement d)
          else if js_gt (scrollHeight d e) (clientHeight d e) \<or>
                  Some e = body d \<or> Some e = documentElement d
               then if overflowY d e = ''auto'' \<or> overflowY d e = ''scroll''
                    then Some (Some e)
                    else f d (parentNode d e)
               else f d (parentNode d e)) = Some r"
  show "r = documentElement d \<or> (\<exists>e. r = Some e \<and> returns_here d e)"
  proof (cases element)
    case None
    with eq show ?thesis by simp
  next
    case (Some e)
    with eq IH [of d "parentNode d e" r] show ?thesis
      by (auto simp: returns_here_def split: if_splits)
  qed
qed

lemma ex_page_target: "findScrollableParent ex_page (Some (Element 3)) = Some (Some (Element 2))"
  by (simp add: findScrollableParent_null findScrollableParent_node returns_here_def ex_page_def)

lemma ex_page_body: "findScrollableParent ex_page (Some (Element 1)) = Some (Some (Element 0))"
  by (simp add: findScrollableParent_null findScrollableParent_node returns_here_def ex_page_def)

lemma ex_fit_page_body:
  "findScrollableParent ex_fit_page (Some (Element 1)) = Some (Some (Element 1))"
  by (simp add: findScrollableParent_null findScrollableParent_node returns_here_def
      ex_page_def ex_fit_page_def)

lemma ex_fit_page_target:
  "findScrollableParent ex_fit_page (Some (Element 3)) = Some (Some (Element 1))"
  by (simp add: findScrollableParent_null findScrollableParent_node returns_here_def
      ex_page_def ex_fit_page_def)

lemma ex_unscrolled_page_target:
  "findScrollableParent ex_unscrolled_page (Some (Element 3)) = Some (Some (Element 2))"
  by (simp add: findScrollableParent_null findScrollableParent_node returns_here_def
      ex_page_def ex_unscrolled_page_def)

text \<open>
  Claim C1, as the specification states it, fails in both directions. On \<open>ex_page\<close> the
  body overflows its box and so qualifies in the specification's sense, but its
  \<^verbatim>\<open>overflowY\<close> is \<^verbatim>\<open>visible\<close> and the walk passes it and ends at the root element. On
  \<open>ex_fit_page\<close> the content of the body fits, so the body does not qualify in the
  specification's sense, but it is the body and its \<^verbatim>\<open>overflowY\<close> is \<^verbatim>\<open>scroll\<close>, and the
  walk returns it.
\<close>

theorem findScrollableParent_spec_test_counterexample:
  "spec_qualifies ex_page (Element 1) \<and>
   findScrollableParent ex_page (Some (Element 1)) = Some (Some (Element 0)) \<and>
   \<not> spec_qualifies ex_fit_page (Element 1) \<and>
   findScrollableParent ex_fit_page (Some (Element 1)) = Some (Some (Element 1))"
proof -
  have "spec_qualifies ex_page (Element 1)"
    by (simp add: spec_qualifies_def ex_page_def)
  moreover have "\<not> spec_qualifies ex_fit_page (Element 1)"
    by (simp add: spec_qualifies_def ex_page_def ex_fit_page_def)
  ultimately show ?thesis using ex_page_body ex_fit_page_body by blast
qed

text \<open>
  Claim C1, amended: a visited node is returned exactly when (its content height exceeds
  its visible height, or it is the body, or it is the root element) and its computed
  \<^verbatim>\<open>overflowY\<close> is \<^verbatim>\<open>auto\<close> or \<^verbatim>\<open>scroll\<close>; otherwise the walk goes on with its parent.
  Hence whatever the resolution returns is the root element or a node that passes this
  test.
\<close>

theorem findScrollableParent_visit:
  "findScrollableParent d (Some e) =
     (if Some Document = documentElement d then Some (documentElement d)
      else if (js_gt (scrollHeight d e) (clientHeight d e) \<or> Some e = body d \<or>
               Some e = documentElement d) \<and>
              (overflowY d e = ''auto'' \<or> overflowY d e = ''scroll'')
           then Some (Some e)
           else findScrollableParent d (parentNode d e)) \<and>
   (findScrollableParent d x = Some r \<longrightarrow>
      r = documentElement d \<or> (\<exists>n. r = Some n \<and> returns_here d n))"
  using findScrollableParent_node [of d e] result_is_root_or_scrollable [of d x r]
  unfolding returns_here_def by blast

theorem findScrollableParent_visit_witness:
  "findScrollableParent ex_page (Some (Element 3)) = Some (Some (Element 2)) \<and>
   Some (Element 2) \<noteq> documentElement ex_page \<and>
   returns_here ex_page (Element 2)"
proof -
  have "Some (Element 2) \<noteq> documentElement ex_page" by (simp add: ex_page_def)
  then show ?thesis
    using findScrollableParent_visit
      [of ex_page "Element 3" "Some (Element 3)" "Some (Element 2)"] ex_page_target
    by blast
qed

text \<open>
  Claim C5, as the specification states it, fails in its second half when "qualifies as
  scrollable" is the test of section 4.3 of the specification. On \<open>ex_fit_page\<close> all
  content fits, so neither the target nor any of its ancestors qualifies, and the walk
  from the target reaches the body, whose \<^verbatim>\<open>overflowY\<close> is \<^verbatim>\<open>scroll\<close>, and returns the
  body, not the root element.
\<close>

theorem findScrollableParent_no_qualifying_counterexample:
  "ancestors_are ex_fit_page (Element 3) [Element 2, Element 1, Element 0, Document] \<and>
   \<not> spec_qualifies ex_fit_page (Element 3) \<and> \<not> spec_qualifies ex_fit_page (Element 2) \<and>
   \<not> spec_qualifies ex_fit_page (Element 1) \<and> \<not> spec_qualifies ex_fit_page (Element 0) \<and>
   \<not> spec_qualifies ex_fit_page Document \<and>
   findScrollableParent ex_fit_page (Some (Element 3)) = Some (Some (Element 1)) \<and>
   documentElement ex_fit_page = Some (Element 0)"
proof -
  have "ancestors_are ex_fit_page (Element 3) [Element 2, Element 1, Element 0, Document]"
    by (simp add: ex_page_def ex_fit_page_def)
  moreover have "\<not> spec_qualifies ex_fit_page (Element 3)"
    "\<not> spec_qualifies ex_fit_page (Element 2)" "\<not> spec_qualifies ex_fit_page (Element 1)"
    "\<not> spec_qualifies ex_fit_page (Element 0)" "\<not> spec_qualifies ex_fit_page Document"
    by (simp_all add: spec_qualifies_def ex_page_def ex_fit_page_def)
  moreover have "documentElement ex_fit_page = Some (Element 0)"
    by (simp add: ex_page_def ex_fit_page_def)
  ultimately show ?thesis using ex_fit_page_target by blast
qed

text \<open>
  Claim C5, amended: the resolution applied to the root element returns the root element,
  and applied to a node such that neither it nor any of its ancestors, up to the one
  without a parent, passes the test the walk applies (content height exceeds visible
  height, or body, or root element; and \<^verbatim>\<open>overflowY\<close> is \<^verbatim>\<open>auto\<close> or \<^verbatim>\<open>scroll\<close>), it
  returns the root element too.
\<close>

theorem findScrollableParent_root:
  "(document_node_ok d \<longrightarrow>
      findScrollableParent d (documentElement d) = Some (documentElement d)) \<and>
   (ancestors_are d e ps \<and> (\<forall>n\<in>set (e # ps). \<not> returns_here d n) \<longrightarrow>
      findScrollableParent d (Some e) = Some (documentElement d))"
  using root_gives_root [of d] no_scrollable_gives_root [of d e ps] by blast

theorem findScrollableParent_root_witness:
  "document_node_ok ex_page \<and>
   findScrollableParent ex_page (Some (Element 0)) = Some (Some (Element 0)) \<and>
   ancestors_are ex_page (Element 1) [Element 0, Document] \<and>
   \<not> returns_here ex_page (Element 1) \<and> \<not> returns_here ex_page (Element 0) \<and>
   \<not> returns_here ex_page Document \<and>
   findScrollableParent ex_page (Some (Element 1)) = Some (Some (Element 0))"
proof -
  have ok: "document_node_ok ex_page"
    by (simp add: document_node_ok_def ex_page_def)
  have anc: "ancestors_are ex_page (Element 1) [Element 0, Document]"
    by (simp add: ex_page_def)
  have none: "\<forall>n\<in>set [Element 1, Element 0, Document]. \<not> returns_here ex_page n"
    by (simp add: returns_here_def ex_page_def)
  have root: "documentElement ex_page = Some (Element 0)" by (simp add: ex_page_def)
  show ?thesis
    using findScrollableParent_root [of ex_page "Element 1" "[Element 0, Document]"]
      ok anc none root
    by simp
qed

text \<open>
  Claim C9: for an element with a finite chain of ancestors, in a document that has a
  root element, the walk ends and returns a node, never \<^verbatim>\<open>null\<close>; so
  \<^verbatim>\<open>scrollByElementTo\<close> returns early only because the node found is the element itself.
\<close>

theorem findScrollableParent_terminates:
  assumes "ancestors_are d e ps" and "documentElement d \<noteq> None"
  shows "\<exists>p. findScrollableParent d (Some e) = Some (Some p) \<and>
             scrollByElementTo d (Some e) top' dur =
               Some (Inr (if p = e then Returned
                          else ScrollToTop p (rectTop d e - rectTop d p + top')
                                 (case dur of None \<Rightarrow> 200 | Some t \<Rightarrow> t)))"
proof -
  from walk_ends [OF assms] obtain p
    where p: "findScrollableParent d (Some e) = Some (Some p)" by blast
  then show ?thesis by (auto simp: scrollByElementTo_def)
qed

theorem findScrollableParent_terminates_witness:
  "ancestors_are ex_page (Element 3) [Element 2, Element 1, Element 0, Document] \<and>
   documentElement ex_page \<noteq> None \<and>
   (\<exists>p. findScrollableParent ex_page (Some (Element 3)) = Some (Some p))"
proof -
  have anc: "ancestors_are ex_page (Element 3) [Element 2, Element 1, Element 0, Document]"
    by (simp add: ex_page_def)
  have root: "documentElement ex_page \<noteq> None" by (simp add: ex_page_def)
  show ?thesis using findScrollableParent_terminates [OF anc root] anc root by blast
qed

section \<open>The scroll-to operation\<close>

text \<open>
  The target of the specification is the one that puts the node's top at the desired
  offset below the ancestor's top, once the ancestor's scroll offset has reached it.
\<close>

lemma spec_target_places_node:
  "top_below_ancestor_after d e p (spec_newScrollTop d e p t) = t"
  by (simp add: top_below_ancestor_after_def spec_newScrollTop_def)

text \<open>
  With the target that \<^verbatim>\<open>scrollByElementTo\<close> computes, the node's top ends at the
  ancestor's former scroll offset minus the given offset below the ancestor's top. The
  doc comment of lines 150-153 describes a position relative to the element's top-left
  corner, which this is only for an ancestor at scroll offset 0: the current scroll
  offset is missing from the sum of line 161.
\<close>

lemma code_target_places_node:
  "top_below_ancestor_after d e p (rectTop d e - rectTop d p + top') = scrollTop d p - top'"
  by (simp add: top_below_ancestor_after_def)

lemma scrolled_ancestor_example:
  "scrollByElementTo ex_page (Some (Element 3)) 10 (Some 200) =
     Some (Inr (ScrollToTop (Element 2) 110 200)) \<and>
   top_below_ancestor_after ex_page (Element 3) (Element 2) 110 = 40"
  by (simp add: scrollByElementTo_def ex_page_target)
     (simp add: ex_page_def top_below_ancestor_after_def)

text \<open>
  Claim C2, as the specification states it, fails already on an ancestor that is not
  scrolled. On \<open>ex_unscrolled_page\<close> the target is 120 pixels below the top of the
  viewport and its container 20 pixels. For a desired offset of 10 the code asks for the
  scroll position \<open>120 - 20 + 10 = 110\<close>: the offset is added. The specification's
  target is \<open>120 - 20 + 0 - 10 = 90\<close>; with the container scrolled to 110 the node's top
  is 10 pixels above the container's top, not 10 pixels below it.
\<close>

theorem scrollByElementTo_spec_target_counterexample:
  "scrollByElementTo ex_unscrolled_page (Some (Element 3)) 10 (Some 200) =
     Some (Inr (ScrollToTop (Element 2) 110 200)) \<and>
   spec_newScrollTop ex_unscrolled_page (Element 3) (Element 2) 10 = 90 \<and>
   top_below_ancestor_after ex_unscrolled_page (Element 3) (Element 2) 110 = - 10"
  by (simp add: scrollByElementTo_def ex_unscrolled_page_target)
     (simp add: ex_page_def ex_unscrolled_page_def spec_newScrollTop_def
        top_below_ancestor_after_def)

text \<open>
  Claim C2, amended: for a node whose resolved scrollable ancestor is another node and is
  at scroll offset 0, \<^verbatim>\<open>scrollByElementTo(node, desiredTopOffset, durationMs)\<close> calls the
  scroll animation on that ancestor, with that duration, and with the target (node's
  viewport-relative top) minus (ancestor's viewport-relative top) plus (ancestor's
  current scroll offset) plus \<^verbatim>\<open>desiredTopOffset\<close>; the final scroll position places the
  ancestor's top \<^verbatim>\<open>desiredTopOffset\<close> pixels below the node's top.
\<close>

theorem scrollByElementTo_target:
  assumes "findScrollableParent d (Some e) = Some (Some p)" and "p \<noteq> e"
    and "scrollTop d p = 0"
  shows "scrollByElementTo d (Some e) top' (Some t) =
           Some (Inr (ScrollToTop p (rectTop d e - rectTop d p + scrollTop d p + top') t)) \<and>
         top_below_ancestor_after d e p (rectTop d e - rectTop d p + scrollTop d p + top') =
           - top'"
  using assms by (simp add: scrollByElementTo_def top_below_ancestor_after_def)

theorem scrollByElementTo_target_witness:
  "findScrollableParent ex_unscrolled_page (Some (Element 3)) = Some (Some (Element 2)) \<and>
   Element 2 \<noteq> Element 3 \<and> scrollTop ex_unscrolled_page (Element 2) = 0 \<and>
   scrollByElementTo ex_unscrolled_page (Some (Element 3)) 10 (Some 350) =
     Some (Inr (ScrollToTop (Element 2) 110 350))"
proof -
  have s: "scrollTop ex_unscrolled_page (Element 2) = 0"
    by (simp add: ex_unscrolled_page_def)
  have n: "Element 2 \<noteq> Element 3" by simp
  have "rectTop ex_unscrolled_page (Element 3) - rectTop ex_unscrolled_page (Element 2) +
        scrollTop ex_unscrolled_page (Element 2) + 10 = 110"
    by (simp add: ex_unscrolled_page_def ex_page_def)
  with scrollByElementTo_target [OF ex_unscrolled_page_target n s, of 10 350]
  show ?thesis using ex_unscrolled_page_target n s by simp
qed

section \<open>Class utilities: properties\<close>

lemma split_on_empty: "split_on sep [] = [[]]"
  by (simp add: split_on.simps)

lemma tokens_a_b:
  "split_on is_space
     (trim (classnames [Str ''a'', Obj [(''b'', Bool True), (''c'', Bool False)]])) =
   [''a'', ''b'']"
  by (simp add: classnames_def trim_def is_space_def split_on.simps)

lemma tokens_x: "split_on is_space (trim (classnames [Str ''x''])) = [''x'']"
  by (simp add: classnames_def trim_def is_space_def split_on.simps)

lemma tokens_y: "split_on is_space (trim (classnames [Str ''y''])) = [''y'']"
  by (simp add: classnames_def trim_def is_space_def split_on.simps)

lemma set_append_tokens: "set (append_tokens cs ts) = set cs \<union> set ts"
  by (induction ts arbitrary: cs) auto

lemma append_tokens_present: "set ts \<subseteq> set cs \<Longrightarrow> append_tokens cs ts = cs"
  by (induction ts arbitrary: cs) auto

lemma append_tokens_twice: "append_tokens (append_tokens cs ts) ts = append_tokens cs ts"
  by (rule append_tokens_present) (simp add: set_append_tokens)

lemma addClass_a_b:
  "addClass (Some e) [Str ''a'', Obj [(''b'', Bool True), (''c'', Bool False)]] d =
   Inr (d\<lparr>classList := (classList d)(e := append_tokens (classList d e) [''a'', ''b''])\<rparr>)"
  by (simp only: addClass_def option.case tokens_a_b)
     (simp add: classList_add_def is_ascii_whitespace_def)

text \<open>
  Claim C6, as the specification states it, fails: \<^verbatim>\<open>addClass\<close> removes nothing, so an
  element whose class list is \<^verbatim>\<open>c\<close> still has \<^verbatim>\<open>c\<close> afterwards.
\<close>

theorem addClass_keeps_c_counterexample:
  "classes_after
     (addClass (Some (Element 3)) [Str ''a'', Obj [(''b'', Bool True), (''c'', Bool False)]]
        (ex_page\<lparr>classList := (\<lambda>n. [''c''])\<rparr>)) (Element 3) =
   Inr [''c'', ''a'', ''b'']"
  by (simp only: addClass_a_b) (simp add: classes_after_def)

text \<open>
  Claim C6, amended: for every element and every initial class list,
  \<^verbatim>\<open>addClass(node, 'a', {b: true, c: false})\<close> succeeds, the class list then contains
  \<^verbatim>\<open>a\<close> and \<^verbatim>\<open>b\<close>, it contains \<^verbatim>\<open>c\<close> exactly when it did before, and the same call
  applied again changes nothing.
\<close>

theorem addClass_a_b_c:
  "(case addClass (Some e) [Str ''a'', Obj [(''b'', Bool True), (''c'', Bool False)]] d of
      Inl err \<Rightarrow> False
    | Inr d' \<Rightarrow>
        ''a'' \<in> set (classList d' e) \<and> ''b'' \<in> set (classList d' e) \<and>
        (''c'' \<in> set (classList d' e)) = (''c'' \<in> set (classList d e)) \<and>
        addClass (Some e) [Str ''a'', Obj [(''b'', Bool True), (''c'', Bool False)]] d' =
          Inr d')"
proof -
  let ?cs = "append_tokens (classList d e) [''a'', ''b'']"
  let ?d' = "d\<lparr>classList := (classList d)(e := ?cs)\<rparr>"
  have 1: "''a'' \<in> set ?cs" "''b'' \<in> set ?cs" by (simp_all add: set_append_tokens)
  have 2: "(''c'' \<in> set ?cs) = (''c'' \<in> set (classList d e))"
    by (simp add: set_append_tokens)
  have "append_tokens ?cs [''a'', ''b''] = ?cs" by (rule append_tokens_twice)
  then have 3:
    "addClass (Some e) [Str ''a'', Obj [(''b'', Bool True), (''c'', Bool False)]] ?d' = Inr ?d'"
    by (simp only: addClass_a_b) simp
  show ?thesis
    using 1 2 3 by (simp only: addClass_a_b) simp
qed

text \<open>
  Claim C7: for every node (also an absent one) and every initial class list,
  \<^verbatim>\<open>toggleClass(node, {x: true, y: false})\<close> does what \<^verbatim>\<open>addClass(node, 'x')\<close> followed by
  \<^verbatim>\<open>removeClass(node, 'y')\<close> does.
\<close>

theorem toggleClass_mapping:
  "toggleClass n [Obj [(''x'', Bool True), (''y'', Bool False)]] d =
   and_then (addClass n [Str ''x''] d) (removeClass n [Str ''y''])"
  by (simp add: toggleClass_def and_then_def split: sum.splits)

text \<open>Both sides succeed on an element: \<^verbatim>\<open>x\<close> is appended if it is missing, \<^verbatim>\<open>y\<close> is deleted.\<close>

lemma toggleClass_mapping_classes:
  "classes_after (toggleClass (Some e) [Obj [(''x'', Bool True), (''y'', Bool False)]] d) e =
   Inr (removeAll ''y''
          (if ''x'' \<in> set (classList d e) then classList d e else classList d e @ [''x'']))"
  by (simp add: toggleClass_def and_then_def addClass_def removeClass_def tokens_x tokens_y
      classList_add_def classList_remove_def is_ascii_whitespace_def classes_after_def)

lemma forOwn_toggle_absent: "forOwn_toggle None kvs d = Inr d"
  by (induction kvs) (auto simp: and_then_def addClass_def removeClass_def)

text \<open>
  Claim C8, as the specification states it, fails: \<^verbatim>\<open>removeFromDOM\<close> and \<^verbatim>\<open>inViewport\<close>
  read a property of their argument without a guard, so on \<^verbatim>\<open>null\<close> they raise a
  \<^verbatim>\<open>TypeError\<close>.
\<close>

theorem absent_target_counterexample:
  "removeFromDOM None ex_page = Inl TypeError \<and> inViewport ex_page None 0 = Inl TypeError"
  by (simp add: removeFromDOM_def inViewport_def)

text \<open>
  Claim C8, amended: every class-mutation operation (\<^verbatim>\<open>setClass\<close>, \<^verbatim>\<open>addClass\<close>,
  \<^verbatim>\<open>removeClass\<close>, \<^verbatim>\<open>toggleClass\<close>) leaves the page as it is and raises nothing when the
  target is absent, whatever the other arguments; \<^verbatim>\<open>removeFromDOM\<close> and \<^verbatim>\<open>inViewport\<close>
  raise nothing on an element and raise a \<^verbatim>\<open>TypeError\<close> on an absent target.
\<close>

theorem absent_target:
  "setClass None args d = Inr d \<and> addClass None args d = Inr d \<and>
   removeClass None args d = Inr d \<and> toggleClass None args d = Inr d \<and>
   isl (removeFromDOM (Some e) d) = False \<and> isl (inViewport d (Some e) offset) = False \<and>
   removeFromDOM None d = Inl TypeError \<and> inViewport d None offset = Inl TypeError"
  by (auto simp: setClass_def addClass_def removeClass_def toggleClass_def Let_def
      forOwn_toggle_absent removeFromDOM_def inViewport_def
      split: jsval.splits list.splits option.splits)

text \<open>
  Claim C10: on an element, \<^verbatim>\<open>addClass\<close> and \<^verbatim>\<open>removeClass\<close> called with class-name
  arguments that compose to the empty string (none at all, or only falsy entries) pass the
  single empty token to the class list, which raises a \<^verbatim>\<open>SyntaxError\<close>.
\<close>

theorem addClass_empty_token:
  "classnames classNames = [] \<Longrightarrow>
   addClass (Some e) classNames d = Inl SyntaxError \<and>
   removeClass (Some e) classNames d = Inl SyntaxError"
  by (simp add: addClass_def removeClass_def trim_def classList_add_def classList_remove_def
      split_on_empty)

theorem addClass_empty_token_witness:
  "classnames [] = [] \<and>
   classnames [Str [], Undefined, Obj [(''c'', Bool False)], Arr []] = [] \<and>
   addClass (Some (Element 3)) [] ex_page = Inl SyntaxError \<and>
   removeClass (Some (Element 3)) [Str [], Undefined, Obj [(''c'', Bool False)], Arr []] ex_page =
     Inl SyntaxError"
proof -
  have 1: "classnames [] = []" by (simp add: classnames_def)
  have 2: "classnames [Str [], Undefined, Obj [(''c'', Bool False)], Arr []] = []"
    by (simp add: classnames_def)
  show ?thesis
    using addClass_empty_token [OF 1] addClass_empty_token [OF 2] 1 2 by simp
qed

text \<open>Arguments that are all falsy compose to the empty string.\<close>

lemma classnames_falsy: "\<forall>a\<in>set args. \<not> truthy a \<Longrightarrow> classnames args = []"
proof -
  have "\<not> truthy a \<Longrightarrow> pushed a = []" for a by (cases a) auto
  then show "\<forall>a\<in>set args. \<not> truthy a \<Longrightarrow> classnames args = []"
    by (induction args) (auto simp: classnames_def)
qed

section \<open>The removal watcher: properties\<close>

text \<open>What an event leaves as it is.\<close>

lemma later_refl: "later w w"
  by (simp add: later_def)

lemma later_trans: "later w w' \<Longrightarrow> later w' w'' \<Longrightarrow> later w w''"
  by (auto simp: later_def)

lemma later_removeListener: "later w (removeListener l w)"
  using set_remove1_subset [of l "rev (listeners w)"]
  by (auto simp: later_def removeListener_def)

lemma later_called: "later w (called l w)"
  by (auto simp: later_def called_def)

lemma later_calls:
  "later w (snd (callListeners depth ls w))"
  "later w (snd (onMutation depth l w))"
  "later w (snd (invoke depth l w))"
proof (induction depth ls w and depth l w and depth l w
    rule: callListeners_onMutation_invoke.induct)
  case (1 depth w)
  show ?case by (simp add: later_refl)
next
  case (2 depth l ls w)
  obtain x y where om: "onMutation depth l w = (x, y)" by (cases "onMutation depth l w")
  with "2.IH"(1) have wy: "later w y" by simp
  show ?case
  proof (cases x)
    case None
    with "2.IH"(2) [of x y] om have "later y (snd (callListeners depth ls y))" by simp
    with wy om None show ?thesis by (auto intro: later_trans)
  next
    case (Some err)
    with om wy show ?thesis by simp
  qed
next
  case (3 depth l w)
  show ?case
  proof (cases "isElementInDOM (document w) (element l)")
    case (Inl err)
    then show ?thesis by (simp add: onMutation.simps later_refl)
  next
    case (Inr b)
    show ?thesis
    proof (cases b)
      case True
      with Inr show ?thesis by (simp add: onMutation.simps later_refl)
    next
      case False
      with Inr "3.IH" [of b] have "later (removeListener l w) (snd (invoke depth l (removeListener l w)))"
        by simp
      with Inr False show ?thesis
        by (auto simp: onMutation.simps intro: later_trans [OF later_removeListener])
    qed
  qed
next
  case (4 depth l w)
  show ?case
  proof (cases "code w (callback l)")
    case Inert
    then show ?thesis by (simp add: invoke.simps later_called)
  next
    case Throws
    then show ?thesis by (simp add: invoke.simps later_called)
  next
    case Emits
    show ?thesis
    proof (cases depth)
      case 0
      with Emits show ?thesis by (simp add: invoke.simps later_called)
    next
      case (Suc deeper)
      with Emits "4.IH" [of deeper]
      have "later (called l w) (snd (callListeners deeper (listeners (called l w)) (called l w)))"
        by simp
      with Emits Suc show ?thesis
        by (auto simp: invoke.simps intro: later_trans [OF later_called])
    qed
  qed
qed

lemma later_emit: "later w (snd (emit depth w))"
  by (simp add: emit_def later_calls)

















text \<open>An event never calls a callback that no subscribed listener has.\<close>

lemma calls_of_called: "callback l \<noteq> cb \<Longrightarrow> calls_of cb (called l w) = calls_of cb w"
  by (simp add: calls_of_def called_def)

lemma calls_of_removeListener: "calls_of cb (removeListener l w) = calls_of cb w"
  by (simp add: calls_of_def removeListener_def)

lemma unregistered_calls:
  "\<forall>x\<in>set ls. callback x \<noteq> cb \<Longrightarrow> \<forall>x\<in>set (listeners w). callback x \<noteq> cb \<Longrightarrow>
   calls_of cb (snd (callListeners depth ls w)) = calls_of cb w"
  "callback l \<noteq> cb \<Longrightarrow> \<forall>x\<in>set (listeners w). callback x \<noteq> cb \<Longrightarrow>
   calls_of cb (snd (onMutation depth l w)) = calls_of cb w"
  "callback l \<noteq> cb \<Longrightarrow> \<forall>x\<in>set (listeners w). callback x \<noteq> cb \<Longrightarrow>
   calls_of cb (snd (invoke depth l w)) = calls_of cb w"
proof (induction depth ls w and depth l w and depth l w
    rule: callListeners_onMutation_invoke.induct)
  case (1 depth w)
  show ?case by simp
next
  case (2 depth l ls w)
  obtain x y where om: "onMutation depth l w = (x, y)" by (cases "onMutation depth l w")
  from "2.IH"(1) "2.prems" om have t: "calls_of cb y = calls_of cb w" by simp
  have "\<forall>x\<in>set (listeners y). callback x \<noteq> cb"
    using later_calls(2) [of w depth l] om "2.prems"(2) by (auto simp: later_def)
  with "2.IH"(2) [of x y] om "2.prems" t show ?case by (cases x) simp_all
next
  case (3 depth l w)
  have "\<forall>x\<in>set (listeners (removeListener l w)). callback x \<noteq> cb"
    using later_removeListener [of w l] "3.prems"(2) by (auto simp: later_def)
  with "3.IH" "3.prems" show ?case
    by (auto simp: onMutation.simps calls_of_removeListener split: sum.splits)
next
  case (4 depth l w)
  have "\<forall>x\<in>set (listeners (called l w)). callback x \<noteq> cb"
    using later_called [of w l] "4.prems"(2) by (auto simp: later_def)
  with "4.IH" "4.prems" show ?case
    by (auto simp: invoke.simps calls_of_called split: behaviour.splits nat.splits)
qed

lemma step_unregistered:
  assumes "\<forall>l\<in>set (listeners w). callback l \<noteq> cb" "\<not> registers cb a"
  shows "calls_of cb (step depth a w) = calls_of cb w \<and>
         (\<forall>l\<in>set (listeners (step depth a w)). callback l \<noteq> cb)"
proof (cases a)
  case (SetDocument d)
  with assms show ?thesis by (simp add: calls_of_def)
next
  case EmitMutation
  with assms show ?thesis
    using unregistered_calls(1) [of "listeners w" cb w depth] later_emit [of w depth]
    by (auto simp: emit_def later_def)
next
  case (OnRemoveFromDOM el c)
  with assms show ?thesis
    by (auto simp: onRemoveFromDOM_def on_def calls_of_def split: sum.splits)
qed

lemma run_unregistered:
  "\<forall>l\<in>set (listeners w). callback l \<noteq> cb \<Longrightarrow> \<forall>a\<in>set acts. \<not> registers cb a \<Longrightarrow>
   calls_of cb (run depth acts w) = calls_of cb w"
proof (induction acts arbitrary: w)
  case Nil
  show ?case by simp
next
  case (Cons a acts)
  then show ?case using step_unregistered [of w cb a depth] by simp
qed


















text \<open>The example states.\<close>

lemma ex_page_attached:
  "isElementInDOM ex_page (Some (Element 3)) = Inr True"
  "isElementInDOM ex_page (Some (Element 2)) = Inr True"
  by (simp_all add: isElementInDOM_def ex_page_def)

lemma ex_detached_attached:
  "isElementInDOM ex_detached (Some (Element 3)) = Inr False"
  "isElementInDOM ex_detached (Some (Element 2)) = Inr True"
  by (simp_all add: isElementInDOM_def ex_detached_def removeChild_def ex_page_def)


lemma ex_watch_state:
  "ex_watch = \<lparr>document = ex_detached, code = (\<lambda>c. Inert),
               listeners = [Listener 0 (Some (Element 3)) 7], nextId = Suc 0, calls = []\<rparr>"
  by (simp add: ex_watch_def init_def onRemoveFromDOM_def ex_page_attached on_def
      emit_def onMutation.simps)







text \<open>
  Claim C4: when the node is not in the document at call time (also when the check itself
  throws), \<^verbatim>\<open>onRemoveFromDOM(node, callback)\<close> leaves the emitter as it is: no listener
  is subscribed. If the callback is not the callback of another, existing registration
  and is not registered later, then whatever document changes and mutation events
  follow, and whatever the other callbacks do, it is never invoked.
\<close>

theorem onRemoveFromDOM_detached:
  assumes "isElementInDOM (document w) el \<noteq> Inr True"
  shows "snd (onRemoveFromDOM el cb w) = w \<and>
         ((\<forall>l\<in>set (listeners w). callback l \<noteq> cb) \<and> (\<forall>a\<in>set acts. \<not> registers cb a) \<longrightarrow>
          calls_of cb (run depth acts (snd (onRemoveFromDOM el cb w))) = calls_of cb w)"
proof -
  from assms have "snd (onRemoveFromDOM el cb w) = w"
    by (auto simp: onRemoveFromDOM_def split: sum.splits)
  then show ?thesis by (simp add: run_unregistered)
qed

theorem onRemoveFromDOM_detached_witness:
  "isElementInDOM (document ex_watch) (Some (Element 3)) \<noteq> Inr True \<and>
   map callback (listeners ex_watch) = [7] \<and> \<not> registers 8 EmitMutation \<and>
   snd (onRemoveFromDOM (Some (Element 3)) 8 ex_watch) = ex_watch \<and>
   calls_of 8
     (run 3 [EmitMutation, EmitMutation] (snd (onRemoveFromDOM (Some (Element 3)) 8 ex_watch))) =
   []"
proof -
  have a: "isElementInDOM (document ex_watch) (Some (Element 3)) \<noteq> Inr True"
    by (simp add: ex_watch_state ex_detached_attached)
  have b: "\<forall>l\<in>set (listeners ex_watch). callback l \<noteq> 8"
    by (simp add: ex_watch_state)
  have c: "\<forall>a\<in>set [EmitMutation, EmitMutation]. \<not> registers 8 a" by simp
  have e: "calls_of 8 ex_watch = []" by (simp add: ex_watch_state calls_of_def)
  have r: "snd (onRemoveFromDOM (Some (Element 3)) 8 ex_watch) = ex_watch \<and>
     calls_of 8
       (run 3 [EmitMutation, EmitMutation] (snd (onRemoveFromDOM (Some (Element 3)) 8 ex_watch))) =
     calls_of 8 ex_watch"
    using onRemoveFromDOM_detached [OF a, of 8 "[EmitMutation, EmitMutation]" 3] b c by blast
  from r have
    "calls_of 8
       (run 3 [EmitMutation, EmitMutation] (snd (onRemoveFromDOM (Some (Element 3)) 8 ex_watch))) =
     calls_of 8 ex_watch"
    by (rule conjunct2)
  from this e have
    "calls_of 8
       (run 3 [EmitMutation, EmitMutation] (snd (onRemoveFromDOM (Some (Element 3)) 8 ex_watch))) =
     []"
    by (rule trans)
  moreover have "map callback (listeners ex_watch) = [7]" by (simp add: ex_watch_state)
  moreover have "\<not> registers 8 EmitMutation" by simp
  ultimately show ?thesis using r a by blast
qed

end
